theory Spec2Isabelle
  imports Complex_Main "HOL-Library.Sublist" "HOL-Library.Char_ord"
    "HOL-Library.List_Lexorder" "HOL-Library.AList"
begin

section \<open>Errors\<close>

text \<open>
  Every exception the effect modules raise is a value of \<open>error\<close>; a function that can
  raise returns \<open>error + 'a\<close> with \<open>Inl\<close> for the exception.
\<close>

datatype error =
    NotInitialized
      \<comment> \<open>ValueError("You must call initialize() before calling this method")\<close>
  | RegexNotSet
      \<comment> \<open>ValueError("To use this method, you must set the regex pattern")\<close>
  | MultivariateNotSupported string
      \<comment> \<open>ValueError("The effect of if <id> does not support multivariate data")\<close>
  | DimensionMismatch
      \<comment> \<open>ValueError("Dimensions of data and coefficients do not match ...")\<close>
  | ColumnsAlreadySet "string set"
      \<comment> \<open>ValueError("Columns <set> are already set")\<close>
  | NotImplementedError
      \<comment> \<open>NotImplementedError("Subclasses must implement \_apply()")\<close>
  | KeyError string
  | IndexError
      \<comment> \<open>tuple index out of range, from \<open>shape[k]\<close>\<close>
  | ShapeError
      \<comment> \<open>the array library rejects the operand shapes\<close>
  | EmptyConcatenate
      \<comment> \<open>ValueError of \<open>jnp.concatenate([])\<close>\<close>
  | AttributeError string

section \<open>Arrays\<close>

text \<open>
  An array is its shape and its entries in row-major order, as the array library stores
  it. Entries are real numbers: the model idealises floating point.
\<close>

record tensor =
  shape :: "nat list"
  entries :: "real list"

definition wf_tensor :: "tensor \<Rightarrow> bool" where
  "wf_tensor t = (length (entries t) = prod_list (shape t))"

definition tmap :: "(real \<Rightarrow> real) \<Rightarrow> tensor \<Rightarrow> tensor" where
  "tmap f t = t\<lparr>entries := map f (entries t)\<rparr>"

text \<open>Operations between a 0-dimensional array (a scalar draw) and an array.\<close>

definition scalar_mul :: "real \<Rightarrow> tensor \<Rightarrow> tensor" where
  "scalar_mul r t = tmap (\<lambda>x. r * x) t"

definition scalar_add :: "tensor \<Rightarrow> real \<Rightarrow> tensor" where
  "scalar_add t r = tmap (\<lambda>x. x + r) t"

definition scalar_div :: "tensor \<Rightarrow> real \<Rightarrow> tensor" where
  "scalar_div t r = tmap (\<lambda>x. x / r) t"

definition scalar_over :: "real \<Rightarrow> tensor \<Rightarrow> tensor" where
  "scalar_over r t = tmap (\<lambda>x. r / x) t"

definition jnp_log :: "tensor \<Rightarrow> tensor" where
  "jnp_log t = tmap ln t"

definition jnp_clip_min :: "tensor \<Rightarrow> real \<Rightarrow> tensor" where
  \<comment> \<open>\<open>jnp.clip(t, a_min, None)\<close>\<close>
  "jnp_clip_min t a_min = tmap (\<lambda>x. max x a_min) t"

text \<open>
  Broadcasting: the shapes are aligned at their last axis; two extents are compatible
  when they are equal or one of them is 1. The functions below work on reversed shapes.
\<close>

fun broadcast_rev :: "nat list \<Rightarrow> nat list \<Rightarrow> nat list option" where
  "broadcast_rev [] ys = Some ys"
| "broadcast_rev (x # xs) [] = Some (x # xs)"
| "broadcast_rev (x # xs) (y # ys) =
     (if x = y \<or> y = 1 then map_option ((#) x) (broadcast_rev xs ys)
      else if x = 1 then map_option ((#) y) (broadcast_rev xs ys)
      else None)"

definition broadcast_shapes :: "nat list \<Rightarrow> nat list \<Rightarrow> nat list option" where
  "broadcast_shapes s1 s2 = map_option rev (broadcast_rev (rev s1) (rev s2))"

fun indices :: "nat list \<Rightarrow> nat list list" where
  "indices [] = [[]]"
| "indices (n # ns) = concat (map (\<lambda>i. map ((#) i) (indices ns)) [0..<n])"

fun offset_rev :: "nat list \<Rightarrow> nat list \<Rightarrow> nat" where
  "offset_rev [] ix = 0"
| "offset_rev (d # ds) [] = 0"
| "offset_rev (d # ds) (i # ix) = (if d = 1 then 0 else i) + d * offset_rev ds ix"

definition entry_at :: "tensor \<Rightarrow> nat list \<Rightarrow> real" where
  \<comment> \<open>the entry of \<open>t\<close> seen from the index \<open>ix\<close> of a broadcast result\<close>
  "entry_at t ix = entries t ! offset_rev (rev (shape t)) (rev ix)"

definition tmul :: "tensor \<Rightarrow> tensor \<Rightarrow> error + tensor" where
  \<comment> \<open>\<open>a * b\<close> on arrays\<close>
  "tmul a b =
     (case broadcast_shapes (shape a) (shape b) of
        None \<Rightarrow> Inl ShapeError
      | Some s \<Rightarrow>
          Inr \<lparr>shape = s, entries = map (\<lambda>ix. entry_at a ix * entry_at b ix) (indices s)\<rparr>)"

section \<open>Column matching\<close>

text \<open>
  \<open>re.match\<close> and \<open>Index.str.match\<close> belong to the language's libraries. The
  effect functions take the matcher as their first argument \<open>re_match pattern name\<close>.
  \<open>literal_match\<close> is the matcher on patterns made of literal characters and the
  alternation bar only: such a pattern matches a name when one of its alternatives is a
  prefix of the name (\<open>re.match\<close> anchors at the start and not at the end).
\<close>

fun split_bar :: "string \<Rightarrow> string list" where
  "split_bar [] = [[]]"
| "split_bar (c # cs) =
     (if c = CHR ''|'' then [] # split_bar cs
      else (case split_bar cs of [] \<Rightarrow> [[c]] | a # as \<Rightarrow> (c # a) # as))"

definition literal_match :: "string \<Rightarrow> string \<Rightarrow> bool" where
  "literal_match pattern name = list_ex (\<lambda>alt. take (length alt) name = alt) (split_bar pattern)"

section \<open>The effect classes of \<open>effects/base.py\<close>\<close>

text \<open>
  \<open>AbstractEffect\<close> (\<open>effects.py\<close>) and \<open>BaseEffect\<close> (\<open>effects/base.py\<close>) both hold
  \<open>id\<close> and \<open>regex\<close> and define \<open>match_columns\<close> and \<open>sample\<close> with the same
  body; \<open>BaseEffect\<close> adds the lifecycle fields and its two tags.
\<close>

record abstract_effect =
  effect_id :: string
  regex :: "string option"

record base_effect = abstract_effect +
  input_feature_column_names :: "string list"
  is_initialized :: bool
  supports_multivariate :: bool
  skip_apply_if_no_match :: bool

record additive_or_multiplicative_effect = base_effect +
  effect_mode :: string

text \<open>A table: the number of levels of its row index and its named columns.\<close>

record dataframe =
  nlevels :: nat
  frame_columns :: "(string \<times> real list) list"

definition columns :: "dataframe \<Rightarrow> string list" where
  "columns X = map fst (frame_columns X)"

fun select_columns :: "(string \<times> real list) list \<Rightarrow> string list \<Rightarrow> error + (string \<times> real list) list" where
  "select_columns cs [] = Inr []"
| "select_columns cs (n # ns) =
     (case map_of cs n of
        None \<Rightarrow> Inl (KeyError n)
      | Some v \<Rightarrow> (case select_columns cs ns of Inl e \<Rightarrow> Inl e | Inr r \<Rightarrow> Inr ((n, v) # r)))"

definition getitem :: "dataframe \<Rightarrow> string list \<Rightarrow> error + dataframe" where
  \<comment> \<open>\<open>X[names]\<close>\<close>
  "getitem X names =
     (case select_columns (frame_columns X) names of
        Inl e \<Rightarrow> Inl e
      | Inr cs \<Rightarrow> Inr (X\<lparr>frame_columns := cs\<rparr>))"

datatype stage = TRAIN | PREDICT

definition BaseEffect_init :: "string \<Rightarrow> string option \<Rightarrow> base_effect" where
  \<comment> \<open>\<open>BaseEffect.__init__\<close> with the class's default tags\<close>
  "BaseEffect_init i r =
     \<lparr>effect_id = i, regex = r, input_feature_column_names = [], is_initialized = False,
      supports_multivariate = False, skip_apply_if_no_match = True\<rparr>"

definition match_columns ::
  "(string \<Rightarrow> string \<Rightarrow> bool) \<Rightarrow> 'a abstract_effect_scheme \<Rightarrow> string list \<Rightarrow> error + string list" where
  "match_columns re_match self cols =
     (case regex self of
        None \<Rightarrow> Inl RegexNotSet
      | Some r \<Rightarrow> Inr (filter (re_match r) cols))"

definition should_skip_apply :: "'a base_effect_scheme \<Rightarrow> bool" where
  "should_skip_apply self =
     (if input_feature_column_names self = [] \<and> skip_apply_if_no_match self then True else False)"

definition initialize ::
  "(string \<Rightarrow> string \<Rightarrow> bool) \<Rightarrow>
   ('a base_effect_scheme \<Rightarrow> dataframe \<Rightarrow> real \<Rightarrow> error + 'a base_effect_scheme) \<Rightarrow>
   'a base_effect_scheme \<Rightarrow> dataframe \<Rightarrow> real \<Rightarrow> error + 'a base_effect_scheme" where
  \<comment> \<open>\<open>hook\<close> is the subclass's \<open>_initialize\<close>\<close>
  "initialize re_match hook self X scale =
     (if \<not> supports_multivariate self \<and> nlevels X > 1
      then Inl (MultivariateNotSupported (effect_id self))
      else
        (case (if regex self = None then Inr [] else match_columns re_match self (columns X)) of
           Inl e \<Rightarrow> Inl e
         | Inr names \<Rightarrow>
             (case hook (self\<lparr>input_feature_column_names := names\<rparr>) X scale of
                Inl e \<Rightarrow> Inl e
              | Inr self' \<Rightarrow> Inr (self'\<lparr>is_initialized := True\<rparr>))))"

definition default_initialize ::
  "'a base_effect_scheme \<Rightarrow> dataframe \<Rightarrow> real \<Rightarrow> error + 'a base_effect_scheme" where
  \<comment> \<open>\<open>BaseEffect._initialize\<close>: pass\<close>
  "default_initialize self X scale = Inr self"

definition prepare_input_data ::
  "('a base_effect_scheme \<Rightarrow> dataframe \<Rightarrow> stage \<Rightarrow> error + (string \<rightharpoonup> tensor)) \<Rightarrow>
   'a base_effect_scheme \<Rightarrow> dataframe \<Rightarrow> stage \<Rightarrow> error + (string \<rightharpoonup> tensor)" where
  \<comment> \<open>\<open>hook\<close> is the subclass's \<open>_prepare_input_data\<close>\<close>
  "prepare_input_data hook self X stg =
     (if \<not> is_initialized self then Inl NotInitialized
      else if should_skip_apply self then Inr Map.empty
      else
        (case getitem X (input_feature_column_names self) of
           Inl e \<Rightarrow> Inl e
         | Inr X' \<Rightarrow> hook self X' stg))"

definition default_prepare_input_data ::
  "(dataframe \<Rightarrow> tensor) \<Rightarrow> 'a base_effect_scheme \<Rightarrow> dataframe \<Rightarrow> stage \<Rightarrow> error + (string \<rightharpoonup> tensor)" where
  \<comment> \<open>\<open>BaseEffect._prepare_input_data\<close>; \<open>series_to_tensor_or_array\<close> of
      \<open>prophetverse.utils\<close> is the parameter\<close>
  "default_prepare_input_data series_to_tensor_or_array self X stg =
     Inr [''data'' \<mapsto> series_to_tensor_or_array X]"

subsection \<open>Random variables\<close>

text \<open>
  \<open>numpyro.sample\<close> declares a site in the trace of the current evaluation and returns
  its value. The trace is the list of declared sites (name and distribution) in
  declaration order; the values come from \<open>env\<close>, the source of randomness that the
  inference engine supplies.
\<close>

type_synonym 'd trace = "(string \<times> 'd) list"

definition sample ::
  "'a abstract_effect_scheme \<Rightarrow> string \<Rightarrow> 'd \<Rightarrow> (string \<Rightarrow> 'v) \<Rightarrow> 'd trace \<Rightarrow> 'v \<times> 'd trace" where
  "sample self name d env tr =
     (let site = effect_id self @ ''__'' @ name in (env site, tr @ [(site, d)]))"

subsection \<open>\<open>apply\<close>\<close>

type_synonym ('e, 'd) apply_hook =
  "'e \<Rightarrow> tensor \<Rightarrow> (string \<rightharpoonup> tensor) \<Rightarrow> (string \<Rightarrow> real) \<Rightarrow> 'd trace \<Rightarrow> error + tensor \<times> 'd trace"

definition BaseEffect_apply_hook :: "('a base_effect_scheme, 'd) apply_hook" where
  \<comment> \<open>\<open>BaseEffect._apply\<close>\<close>
  "BaseEffect_apply_hook self trend kwargs env tr = Inl NotImplementedError"

definition BaseEffect_apply ::
  "('a base_effect_scheme, 'd) apply_hook \<Rightarrow> ('a base_effect_scheme, 'd) apply_hook" where
  \<comment> \<open>\<open>BaseEffect.apply\<close>; \<open>hook\<close> is the subclass's \<open>_apply\<close>\<close>
  "BaseEffect_apply hook self trend kwargs env tr = hook self trend kwargs env tr"

definition BaseAdditiveOrMultiplicativeEffect_apply ::
  "('a additive_or_multiplicative_effect_scheme, 'd) apply_hook \<Rightarrow>
   ('a additive_or_multiplicative_effect_scheme, 'd) apply_hook" where
  "BaseAdditiveOrMultiplicativeEffect_apply hook self trend kwargs env tr =
     (case BaseEffect_apply hook self trend kwargs env tr of
        Inl e \<Rightarrow> Inl e
      | Inr (x, tr') \<Rightarrow>
          if effect_mode self = ''additive'' then Inr (x, tr')
          else (case tmul trend x of Inl e \<Rightarrow> Inl e | Inr y \<Rightarrow> Inr (y, tr')))"

section \<open>The Log effect of \<open>effects/log.py\<close>\<close>

record 'd log_effect = additive_or_multiplicative_effect +
  scale_prior :: 'd
  rate_prior :: 'd

definition LogEffect_init :: "string \<Rightarrow> string option \<Rightarrow> string \<Rightarrow> 'd \<Rightarrow> 'd \<Rightarrow> 'd log_effect" where
  "LogEffect_init i r m sp rp =
     \<lparr>effect_id = i, regex = r, input_feature_column_names = [], is_initialized = False,
      supports_multivariate = False, skip_apply_if_no_match = True, effect_mode = m,
      scale_prior = sp, rate_prior = rp\<rparr>"

definition LogEffect_apply_hook :: "('d log_effect, 'd) apply_hook" where
  \<comment> \<open>\<open>LogEffect._apply\<close>\<close>
  "LogEffect_apply_hook self trend kwargs env tr =
     (case kwargs ''data'' of
        None \<Rightarrow> Inl (KeyError ''data'')
      | Some data \<Rightarrow>
          (let (scale, tr1) = sample self ''log_scale'' (scale_prior self) env tr;
               (rate, tr2) = sample self ''log_rate'' (rate_prior self) env tr1;
               effect = scalar_mul scale
                          (jnp_log (jnp_clip_min (scalar_add (scalar_mul rate data) 1) (1 / 10 ^ 8)))
           in Inr (effect, tr2)))"

section \<open>The application functions of \<open>effects/effect_apply.py\<close>\<close>

definition shape_at :: "tensor \<Rightarrow> nat \<Rightarrow> error + nat" where
  \<comment> \<open>\<open>t.shape[k]\<close> for a literal \<open>k \<ge> 0\<close>\<close>
  "shape_at t k = (if k < length (shape t) then Inr (shape t ! k) else Inl IndexError)"

definition reshape_column :: "tensor \<Rightarrow> tensor" where
  \<comment> \<open>\<open>t.reshape((-1, 1))\<close>\<close>
  "reshape_column t = \<lparr>shape = [length (entries t), 1], entries = entries t\<rparr>"

definition dot :: "real list \<Rightarrow> real list \<Rightarrow> real" where
  "dot xs ys = sum_list (map2 (*) xs ys)"

definition matmul_column :: "tensor \<Rightarrow> tensor \<Rightarrow> error + tensor" where
  \<comment> \<open>\<open>a @ c\<close> for a column \<open>c\<close> of shape \<open>(k, 1)\<close>: the last axis of \<open>a\<close> is
      contracted with \<open>c\<close>, the leading axes of \<open>a\<close> are kept\<close>
  "matmul_column a c =
     (case rev (shape a) of
        [] \<Rightarrow> Inl ShapeError
      | f # lead \<Rightarrow>
          if f \<noteq> length (entries c) then Inl ShapeError
          else Inr \<lparr>shape = rev lead @ [1],
                    entries = map (\<lambda>i. dot (take f (drop (i * f) (entries a))) (entries c))
                                [0..<prod_list lead]\<rparr>)"

definition matrix_multiplication :: "tensor \<Rightarrow> tensor \<Rightarrow> error + tensor" where
  \<comment> \<open>\<open>effects.py\<close>: \<open>data @ coefficients.reshape((-1, 1))\<close>\<close>
  "matrix_multiplication data coefficients = matmul_column data (reshape_column coefficients)"

text \<open>
  \<open>effects/effect_apply.py\<close> imports \<open>matrix_multiplication\<close> from
  \<open>prophetverse.utils.algebric_operations\<close>; it is the parameter \<open>mm\<close> of the two
  functions.
\<close>

definition additive_effect ::
  "(tensor \<Rightarrow> tensor \<Rightarrow> error + tensor) \<Rightarrow> tensor \<Rightarrow> tensor \<Rightarrow> error + tensor" where
  "additive_effect mm data coefficients =
     (case shape_at data 1 of
        Inl e \<Rightarrow> Inl e
      | Inr d1 \<Rightarrow>
          (case shape_at coefficients 0 of
             Inl e \<Rightarrow> Inl e
           | Inr c0 \<Rightarrow>
               if d1 \<noteq> c0 then Inl DimensionMismatch
               else mm data coefficients))"

definition multiplicative_effect ::
  "(tensor \<Rightarrow> tensor \<Rightarrow> error + tensor) \<Rightarrow> tensor \<Rightarrow> tensor \<Rightarrow> tensor \<Rightarrow> error + tensor" where
  "multiplicative_effect mm trend data coefficients =
     (case shape_at data 1 of
        Inl e \<Rightarrow> Inl e
      | Inr d1 \<Rightarrow>
          (case shape_at coefficients 0 of
             Inl e \<Rightarrow> Inl e
           | Inr c0 \<Rightarrow>
               if d1 \<noteq> c0 then Inl DimensionMismatch
               else (case mm data coefficients of Inl e \<Rightarrow> Inl e | Inr x \<Rightarrow> tmul trend x)))"

section \<open>The Hill effect of \<open>effects/effects.py\<close>\<close>

record 'd hill_effect = abstract_effect +
  half_max_prior :: 'd
  slope_prior :: 'd
  max_effect_prior :: 'd
  hill_effect_mode :: string

text \<open>
  \<open>_exponent_safe\<close> is imported from \<open>prophetverse.utils.algebric_operations\<close>; it is
  the parameter \<open>exponent_safe\<close> of \<open>HillEffect_compute_effect\<close>, applied entry by entry.
\<close>

definition HillEffect_compute_effect ::
  "(real \<Rightarrow> real \<Rightarrow> real) \<Rightarrow> 'd hill_effect \<Rightarrow> tensor \<Rightarrow> tensor \<Rightarrow> (string \<Rightarrow> real) \<Rightarrow> 'd trace \<Rightarrow>
   error + tensor \<times> 'd trace" where
  "HillEffect_compute_effect exponent_safe self trend data env tr =
     (let (half_max, tr1) = sample self ''half_max'' (half_max_prior self) env tr;
          (slope, tr2) = sample self ''slope'' (slope_prior self) env tr1;
          (max_effect, tr3) = sample self ''max_effect'' (max_effect_prior self) env tr2;
          x = tmap (\<lambda>b. exponent_safe b (- slope)) (scalar_div data half_max);
          effect = scalar_over max_effect (scalar_add x 1)
      in if hill_effect_mode self = ''additive'' then Inr (effect, tr3)
         else (case tmul trend effect of Inl e \<Rightarrow> Inl e | Inr y \<Rightarrow> Inr (y, tr3)))"

text \<open>
  The power \<open>b ** e\<close> of the array library on real entries. It is a number for a
  positive base, for the base zero with an exponent that is not negative, and for a
  negative base with an integer exponent. Otherwise it is \<open>None\<close>: a division by zero
  (base zero, negative exponent) or the fractional power of a negative base.
\<close>

definition jnp_power :: "real \<Rightarrow> real \<Rightarrow> real option" where
  "jnp_power b e =
     (if 0 < b then Some (b powr e)
      else if b = 0 then (if e = 0 then Some 1 else if 0 < e then Some 0 else None)
      else if of_int \<lfloor>e\<rfloor> = e then Some (b powi \<lfloor>e\<rfloor>)
      else None)"

text \<open>
  Modelled from the spec: \<open>_exponent_safe\<close> of \<open>prophetverse.utils.algebric_operations\<close>,
  which the Hill effect calls, is not among the sources. The spec has the raw effect
  computed as \<open>(data / half_max) ** -slope\<close> "with a numerically safe exponentiation that
  avoids division-by-zero / negative-base-fractional-power failures for zero or negative
  data", such edge cases being "never raised", the computation "defined everywhere in the
  input domain". So the safe exponentiation is the power wherever the power is a number,
  and a number where it is not. The spec does not say which number: it is \<open>fallback\<close>.
\<close>

definition exponent_safe_spec :: "(real \<Rightarrow> real \<Rightarrow> real) \<Rightarrow> real \<Rightarrow> real \<Rightarrow> real" where
  "exponent_safe_spec fallback b e = (case jnp_power b e of Some v \<Rightarrow> v | None \<Rightarrow> fallback b e)"

section \<open>The linear effect with heterogeneous priors of \<open>effects.py\<close>\<close>

text \<open>
  \<open>exogenous_priors\<close> is a dictionary: an association list in insertion order. A prior
  is a value of \<open>'p\<close>; the distribution built for a group is the prior with the number of
  the group's columns. The two attributes that \<open>set_distributions_and_permutation_matrix\<close>
  assigns are \<open>None\<close> until it has assigned them.
\<close>

record 'p linear_heterogenous_priors_effect = abstract_effect +
  exogenous_priors :: "(string \<times> 'p) list"
  feature_names :: "string list"
  default_exogenous_prior :: 'p
  het_effect_mode :: string
  exogenous_permutation_matrix :: "real list list option"
  exogenous_dists :: "(string \<times> 'p \<times> nat) list option"

fun join :: "string \<Rightarrow> string list \<Rightarrow> string" where
  "join sep [] = []"
| "join sep [x] = x"
| "join sep (x # y # ys) = x @ sep @ join sep (y # ys)"

definition index_difference :: "string list \<Rightarrow> string set \<Rightarrow> string list" where
  \<comment> \<open>\<open>Index.difference\<close>: the names not in the set, without duplicates, sorted\<close>
  "index_difference names A = sort (remdups (filter (\<lambda>c. c \<notin> A) names))"

fun claim_columns ::
  "(string \<Rightarrow> string \<Rightarrow> bool) \<Rightarrow> string list \<Rightarrow> string list \<Rightarrow> string set \<Rightarrow> error + string set" where
  "claim_columns re_match names [] already_set_columns = Inr already_set_columns"
| "claim_columns re_match names (r # rs) already_set_columns =
     (let cols = filter (re_match r) names in
      if already_set_columns \<inter> set cols \<noteq> {}
      then Inl (ColumnsAlreadySet (already_set_columns \<inter> set cols))
      else claim_columns re_match names rs (already_set_columns \<union> set cols))"

definition features_with_default_priors ::
  "(string \<Rightarrow> string \<Rightarrow> bool) \<Rightarrow> 'p linear_heterogenous_priors_effect \<Rightarrow> error + string" where
  "features_with_default_priors re_match self =
     (case claim_columns re_match (feature_names self) (map fst (exogenous_priors self)) {} of
        Inl e \<Rightarrow> Inl e
      | Inr already_set_columns \<Rightarrow>
          Inr (join ''|'' (index_difference (feature_names self) already_set_columns)))"

definition get_loc :: "string list \<Rightarrow> string \<Rightarrow> nat" where
  \<comment> \<open>\<open>Index.get_loc\<close> on an index of unique names: the position of the name\<close>
  "get_loc names c = length (takeWhile (\<lambda>x. x \<noteq> c) names)"

definition eye :: "nat \<Rightarrow> real list list" where
  "eye n = map (\<lambda>i. map (\<lambda>j. if i = j then 1 else 0) [0..<n]) [0..<n]"

definition take_rows :: "real list list \<Rightarrow> nat list \<Rightarrow> real list list" where
  \<comment> \<open>\<open>M[idx]\<close>\<close>
  "take_rows M idx = map (\<lambda>k. M ! k) idx"

definition transpose_matrix :: "nat \<Rightarrow> real list list \<Rightarrow> real list list" where
  \<comment> \<open>\<open>M.T\<close> for a matrix with \<open>n\<close> columns\<close>
  "transpose_matrix n M = map (\<lambda>j. map (\<lambda>row. row ! j) M) [0..<n]"

fun digits :: "nat \<Rightarrow> string" where
  "digits n = (if n < 10 then [char_of (48 + n)] else digits (n div 10) @ [char_of (48 + n mod 10)])"

declare digits.simps [simp del]

fun group_loop ::
  "(string \<Rightarrow> string \<Rightarrow> bool) \<Rightarrow> string list \<Rightarrow> nat \<Rightarrow> (string \<times> 'p) list \<Rightarrow>
   real list list list \<times> (string \<times> 'p \<times> nat) list \<times> string list" where
  \<comment> \<open>the loop over \<open>enumerate(exogenous_priors.items())\<close>: the blocks of the matrix,
      the named distributions, and the patterns a warning was logged for\<close>
  "group_loop re_match names i [] = ([], [], [])"
| "group_loop re_match names i ((r, prior) # ps) =
     (let cols = filter (re_match r) names;
          idx = map (get_loc names) cols;
          distribution = (prior, length idx);
          name = ''exogenous_coefficients_'' @ digits i;
          (mats, dists, warnings) = group_loop re_match names (Suc i) ps
      in if idx = [] then (mats, dists, r # warnings)
         else (transpose_matrix (length names) (take_rows (eye (length names)) idx) # mats,
               (name, distribution) # dists, warnings))"

definition concatenate_axis1 :: "real list list list \<Rightarrow> error + real list list" where
  "concatenate_axis1 mats =
     (case mats of
        [] \<Rightarrow> Inl EmptyConcatenate
      | M # Ms \<Rightarrow>
          if list_all (\<lambda>M'. length M' = length M) Ms
          then Inr (map (\<lambda>i. concat (map (\<lambda>M'. M' ! i) mats)) [0..<length M])
          else Inl ShapeError)"

definition priors_with_default ::
  "(string \<Rightarrow> string \<Rightarrow> bool) \<Rightarrow> 'p linear_heterogenous_priors_effect \<Rightarrow> error + (string \<times> 'p) list" where
  \<comment> \<open>the copy of \<open>exogenous_priors\<close> with the entry of the default prior\<close>
  "priors_with_default re_match self =
     (case features_with_default_priors re_match self of
        Inl e \<Rightarrow> Inl e
      | Inr remaining_regex \<Rightarrow>
          if remaining_regex \<noteq> []
          then Inr (AList.update remaining_regex (default_exogenous_prior self) (exogenous_priors self))
          else Inr (exogenous_priors self))"

definition set_distributions_and_permutation_matrix ::
  "(string \<Rightarrow> string \<Rightarrow> bool) \<Rightarrow> 'p linear_heterogenous_priors_effect \<Rightarrow>
   error + 'p linear_heterogenous_priors_effect \<times> string list" where
  \<comment> \<open>returns the effect with its two attributes assigned, and the warnings logged\<close>
  "set_distributions_and_permutation_matrix re_match self =
     (if feature_names self = [] then Inr (self, [])
      else
        (case priors_with_default re_match self of
           Inl e \<Rightarrow> Inl e
         | Inr priors \<Rightarrow>
             (let (mats, dists, warnings) = group_loop re_match (feature_names self) 0 priors in
              case concatenate_axis1 mats of
                Inl e \<Rightarrow> Inl e
              | Inr P \<Rightarrow>
                  Inr (self\<lparr>exogenous_permutation_matrix := Some P, exogenous_dists := Some dists\<rparr>,
                       warnings))))"

definition LinearHeterogenousPriorsEffect_init ::
  "(string \<Rightarrow> string \<Rightarrow> bool) \<Rightarrow> string \<Rightarrow> (string \<times> 'p) list \<Rightarrow> string list \<Rightarrow> 'p \<Rightarrow> string \<Rightarrow>
   error + 'p linear_heterogenous_priors_effect \<times> string list" where
  "LinearHeterogenousPriorsEffect_init re_match i priors names default_prior m =
     set_distributions_and_permutation_matrix re_match
       \<lparr>effect_id = i, regex = None, exogenous_priors = priors, feature_names = names,
        default_exogenous_prior = default_prior, het_effect_mode = m,
        exogenous_permutation_matrix = None, exogenous_dists = None\<rparr>"

fun sample_parameters ::
  "'a abstract_effect_scheme \<Rightarrow> (string \<times> 'd) list \<Rightarrow> (string \<Rightarrow> real list) \<Rightarrow> 'd trace \<Rightarrow>
   real list list \<times> 'd trace" where
  \<comment> \<open>the loop of \<open>get_coefficients\<close>: one draw per named distribution\<close>
  "sample_parameters self [] env tr = ([], tr)"
| "sample_parameters self ((name, distribution) # ds) env tr =
     (let (v, tr1) = sample self (''exogenous_coefficients_'' @ name) distribution env tr;
          (vs, tr2) = sample_parameters self ds env tr1
      in (v # vs, tr2))"

definition matvec :: "real list list \<Rightarrow> real list \<Rightarrow> error + real list" where
  \<comment> \<open>\<open>P @ c\<close> for a column \<open>c\<close>; the column that results is the list of its entries\<close>
  "matvec P c =
     (if list_all (\<lambda>row. length row = length c) P then Inr (map (\<lambda>row. dot row c) P)
      else Inl ShapeError)"

definition get_coefficients ::
  "'p linear_heterogenous_priors_effect \<Rightarrow> (string \<Rightarrow> real list) \<Rightarrow> ('p \<times> nat) trace \<Rightarrow>
   error + real list \<times> ('p \<times> nat) trace" where
  "get_coefficients self env tr =
     (case exogenous_dists self of
        None \<Rightarrow> Inl (AttributeError ''exogenous_dists'')
      | Some dists \<Rightarrow>
          (let (parameters, tr') = sample_parameters self dists env tr in
           case exogenous_permutation_matrix self of
             None \<Rightarrow> Inl (AttributeError ''exogenous_permutation_matrix'')
           | Some P \<Rightarrow>
               if parameters = [] then Inl EmptyConcatenate
               else (case matvec P (concat parameters) of
                       Inl e \<Rightarrow> Inl e
                     | Inr c \<Rightarrow> Inr (c, tr'))))"

text \<open>
  The vector that has the coefficients of one group at the group's column positions and
  zero elsewhere, and the sum of such vectors.
\<close>

definition place :: "nat \<Rightarrow> nat list \<Rightarrow> real list \<Rightarrow> real list" where
  "place n idx v = map (\<lambda>i. case map_of (zip idx v) i of Some x \<Rightarrow> x | None \<Rightarrow> 0) [0..<n]"

definition vadd :: "real list \<Rightarrow> real list \<Rightarrow> real list" where
  "vadd xs ys = map2 (+) xs ys"

definition placed_sum :: "nat \<Rightarrow> nat list list \<Rightarrow> real list list \<Rightarrow> real list" where
  "placed_sum n idxs vs = foldr vadd (map2 (place n) idxs vs) (replicate n 0)"

definition group_indices ::
  "(string \<Rightarrow> string \<Rightarrow> bool) \<Rightarrow> string list \<Rightarrow> (string \<times> 'p) list \<Rightarrow> nat list list" where
  \<comment> \<open>the column positions of the groups that match a column, in declaration order\<close>
  "group_indices re_match names priors =
     filter (\<lambda>idx. idx \<noteq> [])
       (map (\<lambda>(r, prior). map (get_loc names) (filter (re_match r) names)) priors)"

definition block :: "nat \<Rightarrow> nat list \<Rightarrow> real list list" where
  \<comment> \<open>\<open>jnp.eye(n)[idx].T\<close>\<close>
  "block n idx = transpose_matrix n (take_rows (eye n) idx)"

text \<open>
  The draws of \<open>get_coefficients\<close> for a list of named distributions, and the sites it
  declares.
\<close>

definition draws :: "'a abstract_effect_scheme \<Rightarrow> (string \<Rightarrow> real list) \<Rightarrow> (string \<times> 'd) list \<Rightarrow> real list list" where
  "draws self env dists =
     map (\<lambda>(name, d). env (effect_id self @ ''__'' @ ''exogenous_coefficients_'' @ name)) dists"

definition declared :: "'a abstract_effect_scheme \<Rightarrow> (string \<times> 'd) list \<Rightarrow> 'd trace" where
  "declared self dists =
     map (\<lambda>(name, d). (effect_id self @ ''__'' @ ''exogenous_coefficients_'' @ name, d)) dists"


text \<open>Example effects, as \<open>__init__\<close> leaves them before the matrix is set.\<close>

definition example_effect :: "unit linear_heterogenous_priors_effect" where
  "example_effect =
     \<lparr>effect_id = ''h'', regex = None, exogenous_priors = [(''b'', ())],
      feature_names = [''c'', ''b'', ''a''], default_exogenous_prior = (),
      het_effect_mode = ''additive'', exogenous_permutation_matrix = None, exogenous_dists = None\<rparr>"

definition prefix_effect :: "unit linear_heterogenous_priors_effect" where
  "prefix_effect =
     \<lparr>effect_id = ''h'', regex = None, exogenous_priors = [(''ab'', ())],
      feature_names = [''a'', ''ab''], default_exogenous_prior = (),
      het_effect_mode = ''additive'', exogenous_permutation_matrix = None, exogenous_dists = None\<rparr>"


section \<open>Lifecycle\<close>

lemma tmul_not_lifecycle: "tmul a b \<noteq> Inl NotInitialized"
  by (simp add: tmul_def split: option.splits)

text \<open>
  Claim C1. \<open>prepare_input_data\<close> on an effect that is not initialized fails with the
  lifecycle error. \<open>apply\<close> makes no lifecycle check, in the base class and in the class
  with the two modes: it fails with the lifecycle error only when the effect's own
  \<open>_apply\<close> does, and the \<open>apply\<close> of the Log effect never does.
\<close>

theorem lifecycle_guard:
  "(\<not> is_initialized self \<longrightarrow> prepare_input_data phook self X stg = Inl NotInitialized) \<and>
   (BaseEffect_apply ahook self trend kwargs env tr = Inl NotInitialized \<longleftrightarrow>
      ahook self trend kwargs env tr = Inl NotInitialized) \<and>
   (BaseAdditiveOrMultiplicativeEffect_apply mhook mself trend kwargs env tr = Inl NotInitialized \<longleftrightarrow>
      mhook mself trend kwargs env tr = Inl NotInitialized) \<and>
   BaseAdditiveOrMultiplicativeEffect_apply LogEffect_apply_hook lself trend kwargs env ltr
      \<noteq> Inl NotInitialized"
proof -
  have log: "LogEffect_apply_hook lself trend kwargs env ltr \<noteq> Inl NotInitialized"
    by (simp add: LogEffect_apply_hook_def Let_def case_prod_beta split: option.splits)
  have mode: "BaseAdditiveOrMultiplicativeEffect_apply h s trend kwargs env t = Inl NotInitialized \<longleftrightarrow>
      h s trend kwargs env t = Inl NotInitialized" for h s t
    using tmul_not_lifecycle
    by (auto simp: BaseAdditiveOrMultiplicativeEffect_apply_def BaseEffect_apply_def
        split: sum.splits if_splits)
  show ?thesis
    using log mode [of LogEffect_apply_hook lself ltr] mode [of mhook mself tr]
    by (simp add: prepare_input_data_def BaseEffect_apply_def)
qed

theorem lifecycle_guard_witness:
  "\<not> is_initialized (BaseEffect_init ''promo'' (Some ''x'')) \<and>
   prepare_input_data (default_prepare_input_data (\<lambda>X. \<lparr>shape = [0], entries = []\<rparr>))
     (BaseEffect_init ''promo'' (Some ''x'')) \<lparr>nlevels = 1, frame_columns = []\<rparr> TRAIN = Inl NotInitialized"
  using lifecycle_guard [THEN conjunct1, of "BaseEffect_init ''promo'' (Some ''x'')"
      "default_prepare_input_data (\<lambda>X. \<lparr>shape = [0], entries = []\<rparr>)" "\<lparr>nlevels = 1, frame_columns = []\<rparr>" TRAIN]
  by (simp add: BaseEffect_init_def)

text \<open>
  A Log effect that was constructed and never initialized: \<open>apply\<close> returns a value.
\<close>

theorem apply_uninitialized_counterexample:
  "\<not> is_initialized (LogEffect_init ''l'' None ''additive'' () ()) \<and>
   BaseAdditiveOrMultiplicativeEffect_apply LogEffect_apply_hook
     (LogEffect_init ''l'' None ''additive'' () ())
     \<lparr>shape = [2], entries = [1, 1]\<rparr> [''data'' \<mapsto> \<lparr>shape = [2], entries = [0, 0]\<rparr>]
     (\<lambda>s. 1) []
    = Inr (\<lparr>shape = [2], entries = [0, 0]\<rparr>, [(''l__log_scale'', ()), (''l__log_rate'', ())])"
  by (simp add: BaseAdditiveOrMultiplicativeEffect_apply_def BaseEffect_apply_def LogEffect_apply_hook_def
    LogEffect_init_def sample_def scalar_mul_def scalar_add_def jnp_log_def jnp_clip_min_def tmap_def Let_def)

section \<open>Column router\<close>

text \<open>
  Claim C7. With a pattern set, \<open>match_columns\<close> returns the columns that match, in the
  order of the input: a subsequence of the input. Matching the result again with the same
  pattern returns it unchanged.
\<close>

theorem match_columns_subsequence:
  assumes "regex self = Some p"
  shows "\<exists>r. match_columns re_match self cols = Inr r \<and> r = filter (re_match p) cols \<and>
             subseq r cols \<and> match_columns re_match self r = Inr r"
  using assms by (simp add: match_columns_def)

theorem match_columns_subsequence_witness:
  "regex (BaseEffect_init ''promo'' (Some ''x'')) = Some ''x'' \<and>
   (\<exists>r. match_columns literal_match (BaseEffect_init ''promo'' (Some ''x'')) [''y1'', ''x2'', ''x1''] = Inr r \<and>
        r = [''x2'', ''x1''] \<and> subseq r [''y1'', ''x2'', ''x1''] \<and>
        match_columns literal_match (BaseEffect_init ''promo'' (Some ''x'')) r = Inr r)"
  using match_columns_subsequence [of "BaseEffect_init ''promo'' (Some ''x'')" "''x''" literal_match "[''y1'', ''x2'', ''x1'']"]
  by (simp add: BaseEffect_init_def literal_match_def)

section \<open>Composition\<close>

subsection \<open>The product of two arrays of one shape\<close>

lemma broadcast_rev_same: "broadcast_rev xs xs = Some xs"
  by (induction xs) simp_all

lemma broadcast_shapes_same: "broadcast_shapes s s = Some s"
  by (simp add: broadcast_shapes_def broadcast_rev_same)

lemma offset_rev_append:
  "length ds = length ix \<Longrightarrow>
   offset_rev (ds @ [d]) (ix @ [i]) = offset_rev ds ix + prod_list ds * (if d = 1 then 0 else i)"
  by (induction ds ix rule: list_induct2) (simp_all add: algebra_simps)

lemma indices_length: "ix \<in> set (indices s) \<Longrightarrow> length ix = length s"
  by (induction s arbitrary: ix) auto

lemma indices_bound: "ix \<in> set (indices s) \<Longrightarrow> list_all2 (<) ix s"
  by (induction s arbitrary: ix) auto

lemma offset_rev_bound: "list_all2 (<) ix ds \<Longrightarrow> offset_rev ds ix < prod_list ds"
proof (induction ix ds rule: list_all2_induct)
  case Nil
  then show ?case by simp
next
  case (Cons i ix d ds)
  have "(if d = 1 then 0 else i) + d * offset_rev ds ix \<le> (d - 1) + d * (prod_list ds - 1)"
    using Cons by (intro add_mono mult_le_mono) auto
  also have "\<dots> < d * prod_list ds"
  proof -
    have "0 < d" "0 < prod_list ds" using Cons by auto
    then obtain d' p' where "d = Suc d'" "prod_list ds = Suc p'"
      by (metis gr0_implies_Suc)
    then show ?thesis by simp
  qed
  finally show ?case by simp
qed

lemma take_drop_take:
  assumes "a + m \<le> k"
  shows "take m (drop a (take k es)) = take m (drop a es)"
proof -
  have "m \<le> k - a" using assms by simp
  then show ?thesis by (simp add: drop_take min_absorb1)
qed

lemma concat_chunks:
  "length es = n * m \<Longrightarrow> concat (map (\<lambda>i. take m (drop (i * m) es)) [0..<n]) = es"
proof (induction n arbitrary: es)
  case 0
  then show ?case by simp
next
  case (Suc n)
  have chunk: "take m (drop (i * m) (take (n * m) es)) = take m (drop (i * m) es)" if "i < n" for i
  proof -
    from that have "Suc i * m \<le> n * m" by (intro mult_le_mono1) simp
    then have "i * m + m \<le> n * m" by (simp add: add.commute)
    then show ?thesis by (rule take_drop_take)
  qed
  have eq1: "map (\<lambda>i. take m (drop (i * m) es)) [0..<n] =
        map (\<lambda>i. take m (drop (i * m) (take (n * m) es))) [0..<n]"
    by (rule map_cong [OF refl]) (simp add: chunk)
  have eq2: "concat (map (\<lambda>i. take m (drop (i * m) (take (n * m) es))) [0..<n]) = take (n * m) es"
    using Suc.prems by (intro Suc.IH) simp
  have eq3: "take m (drop (n * m) es) = drop (n * m) es"
    using Suc.prems by simp
  have "concat (map (\<lambda>i. take m (drop (i * m) es)) [0..<Suc n]) =
        concat (map (\<lambda>i. take m (drop (i * m) es)) [0..<n]) @ take m (drop (n * m) es)"
    by simp
  also have "\<dots> = take (n * m) es @ drop (n * m) es"
    by (simp only: eq1 eq2 eq3)
  finally show ?case by simp
qed

lemma entries_by_index:
  "length es = prod_list s \<Longrightarrow> map (\<lambda>ix. es ! offset_rev (rev s) (rev ix)) (indices s) = es"
proof (induction s arbitrary: es)
  case Nil
  then obtain x where "es = [x]" by (cases es) auto
  then show ?case by simp
next
  case (Cons n ns)
  define m where "m = prod_list ns"
  have len: "length es = n * m" using Cons.prems by (simp add: m_def)
  have row: "map (\<lambda>ix. es ! offset_rev (rev (n # ns)) (rev (i # ix))) (indices ns) = take m (drop (i * m) es)"
    if "i < n" for i
  proof -
    have full: "length (take m (drop (i * m) es)) = m"
    proof -
      from that have "Suc i * m \<le> n * m" by (intro mult_le_mono1) simp
      then show ?thesis using len by simp
    qed
    have "map (\<lambda>ix. es ! offset_rev (rev (n # ns)) (rev (i # ix))) (indices ns) =
          map (\<lambda>ix. take m (drop (i * m) es) ! offset_rev (rev ns) (rev ix)) (indices ns)"
    proof (rule map_cong [OF refl])
      fix ix assume ix: "ix \<in> set (indices ns)"
      then have l: "length (rev ns) = length (rev ix)" by (simp add: indices_length)
      have "list_all2 (<) (rev ix) (rev ns)" using indices_bound [OF ix] by simp
      then have b: "offset_rev (rev ns) (rev ix) < m"
        using offset_rev_bound [of "rev ix" "rev ns"] by (simp add: m_def)
      have "(if n = 1 then 0 else i) = i" using that by auto
      then have "offset_rev (rev (n # ns)) (rev (i # ix)) = offset_rev (rev ns) (rev ix) + m * i"
        using offset_rev_append [OF l, of n i] by (simp add: m_def)
      moreover have "take m (drop (i * m) es) ! offset_rev (rev ns) (rev ix) =
                     es ! (i * m + offset_rev (rev ns) (rev ix))"
        using b full by simp
      ultimately show "es ! offset_rev (rev (n # ns)) (rev (i # ix)) =
                       take m (drop (i * m) es) ! offset_rev (rev ns) (rev ix)"
        by (simp add: add.commute mult.commute)
    qed
    also have "\<dots> = take m (drop (i * m) es)"
      using full by (intro Cons.IH) (simp add: m_def)
    finally show ?thesis .
  qed
  have "map (\<lambda>ix. es ! offset_rev (rev (n # ns)) (rev ix)) (indices (n # ns)) =
        concat (map (\<lambda>i. map (\<lambda>ix. es ! offset_rev (rev (n # ns)) (rev (i # ix))) (indices ns)) [0..<n])"
    by (simp add: map_concat comp_def)
  also have "\<dots> = concat (map (\<lambda>i. take m (drop (i * m) es)) [0..<n])"
    by (intro arg_cong [where f = concat] map_cong refl row) simp
  also have "\<dots> = es" using len by (rule concat_chunks)
  finally show ?case .
qed

lemma map2_maps: "map2 f (map g xs) (map h xs) = map (\<lambda>x. f (g x) (h x)) xs"
  by (induction xs) simp_all

lemma tmul_same_shape:
  assumes "wf_tensor a" and "wf_tensor b" and "shape a = shape b"
  shows "tmul a b = Inr \<lparr>shape = shape a, entries = map2 (*) (entries a) (entries b)\<rparr>"
proof -
  let ?s = "shape a"
  have a: "map (\<lambda>ix. entry_at a ix) (indices ?s) = entries a"
    using assms(1) entries_by_index [of "entries a" ?s] by (simp add: wf_tensor_def entry_at_def)
  have b: "map (\<lambda>ix. entry_at b ix) (indices ?s) = entries b"
    using assms(2,3) entries_by_index [of "entries b" ?s] by (simp add: wf_tensor_def entry_at_def)
  have "map (\<lambda>ix. entry_at a ix * entry_at b ix) (indices ?s) =
        map2 (*) (map (\<lambda>ix. entry_at a ix) (indices ?s)) (map (\<lambda>ix. entry_at b ix) (indices ?s))"
    by (simp only: map2_maps)
  then show ?thesis
    using assms(3) a b by (simp add: tmul_def broadcast_shapes_same [of "shape b"])
qed

text \<open>
  Claim C8. When the effect's \<open>_apply\<close> returns the raw value, \<open>apply\<close> returns the raw
  value unchanged in additive mode and the product \<open>trend * raw\<close> in any other mode; for
  a trend and a raw value of one shape the product is taken entry by entry.
  \<open>apply\<close> returns a value and a trace only: the effect, and so its mode, is as it was
  constructed.
\<close>

theorem composition_algebra:
  assumes "hook self trend kwargs env tr = Inr (raw, tr')"
  shows "BaseAdditiveOrMultiplicativeEffect_apply hook self trend kwargs env tr =
           (if effect_mode self = ''additive'' then Inr (raw, tr')
            else (case tmul trend raw of Inl e \<Rightarrow> Inl e | Inr y \<Rightarrow> Inr (y, tr'))) \<and>
         (wf_tensor trend \<and> wf_tensor raw \<and> shape trend = shape raw \<longrightarrow>
            tmul trend raw =
              Inr \<lparr>shape = shape raw, entries = map2 (*) (entries trend) (entries raw)\<rparr>)"
  using assms tmul_same_shape [of trend raw]
  by (simp add: BaseAdditiveOrMultiplicativeEffect_apply_def BaseEffect_apply_def)

lemma max_exp: "max (exp 1) (1 / 100000000 :: real) = exp 1"
proof -
  have "(1 / 100000000 :: real) \<le> 1" by simp
  also have "(1::real) \<le> exp 1" by simp
  finally show ?thesis by (rule max_absorb1)
qed

theorem composition_algebra_witness:
  "LogEffect_apply_hook (LogEffect_init ''l'' None ''multiplicative'' () ())
     \<lparr>shape = [2], entries = [2, 3]\<rparr> [''data'' \<mapsto> \<lparr>shape = [2], entries = [exp 1 - 1, 0]\<rparr>] (\<lambda>s. 1) []
     = Inr (\<lparr>shape = [2], entries = [1, 0]\<rparr>, [(''l__log_scale'', ()), (''l__log_rate'', ())]) \<and>
   BaseAdditiveOrMultiplicativeEffect_apply LogEffect_apply_hook
     (LogEffect_init ''l'' None ''multiplicative'' () ())
     \<lparr>shape = [2], entries = [2, 3]\<rparr> [''data'' \<mapsto> \<lparr>shape = [2], entries = [exp 1 - 1, 0]\<rparr>] (\<lambda>s. 1) []
     = Inr (\<lparr>shape = [2], entries = [2, 0]\<rparr>, [(''l__log_scale'', ()), (''l__log_rate'', ())])"
proof -
  have h: "LogEffect_apply_hook (LogEffect_init ''l'' None ''multiplicative'' () ())
     \<lparr>shape = [2], entries = [2, 3]\<rparr> [''data'' \<mapsto> \<lparr>shape = [2], entries = [exp 1 - 1, 0]\<rparr>] (\<lambda>s. 1) []
     = Inr (\<lparr>shape = [2], entries = [1, 0]\<rparr>, [(''l__log_scale'', ()), (''l__log_rate'', ())])"
    by (simp add: LogEffect_apply_hook_def LogEffect_init_def sample_def scalar_mul_def scalar_add_def
        jnp_log_def jnp_clip_min_def tmap_def Let_def max_exp)
  from composition_algebra [of LogEffect_apply_hook "LogEffect_init ''l'' None ''multiplicative'' () ()"
      "\<lparr>shape = [2], entries = [2, 3]\<rparr>" "[''data'' \<mapsto> \<lparr>shape = [2], entries = [exp 1 - 1, 0]\<rparr>]"
      "\<lambda>s. 1" "[]", OF h] h
  show ?thesis
    by (simp add: LogEffect_init_def tmul_def broadcast_shapes_def entry_at_def upt_rec)
qed

section \<open>Names of random variables\<close>

text \<open>
  Claim C9. Every site that an effect declares through \<open>sample\<close> is named by the
  effect's id, two underscores, and the given name. The effects \<open>promo\<close> and
  \<open>seasonality\<close>, both declaring \<open>coefs\<close>, declare two different sites.
\<close>

theorem sample_site_name:
  "sample self name d env tr =
     (env (effect_id self @ ''__'' @ name), tr @ [(effect_id self @ ''__'' @ name, d)]) \<and>
   map fst (snd (sample (BaseEffect_init ''seasonality'' None) ''coefs'' d2 env2
       (snd (sample (BaseEffect_init ''promo'' None) ''coefs'' d1 env1 [])))) =
     [''promo__coefs'', ''seasonality__coefs''] \<and>
   ''promo__coefs'' \<noteq> ''seasonality__coefs''"
  by (simp add: sample_def BaseEffect_init_def Let_def)

section \<open>Log effect\<close>

lemma log_value_general:
  assumes "kwargs ''data'' = Some data"
  shows "LogEffect_apply_hook self trend kwargs env tr =
         Inr (tmap (\<lambda>x. env (effect_id self @ ''__log_scale'') *
                      ln (max (env (effect_id self @ ''__log_rate'') * x + 1) (1 / 10 ^ 8))) data,
              tr @ [(effect_id self @ ''__log_scale'', scale_prior self),
                    (effect_id self @ ''__log_rate'', rate_prior self)])"
  using assms
  by (simp add: LogEffect_apply_hook_def sample_def scalar_mul_def scalar_add_def jnp_log_def
      jnp_clip_min_def tmap_def Let_def comp_def)

lemma log_scenario:
  "BaseAdditiveOrMultiplicativeEffect_apply LogEffect_apply_hook
     (LogEffect_init ''l'' None ''additive'' sp rp)
     trend [''data'' \<mapsto> \<lparr>shape = [2], entries = [0, exp 1 - 1]\<rparr>]
     (\<lambda>s. if s = ''l__log_scale'' then 2 else 1) []
    = Inr (\<lparr>shape = [2], entries = [0, 2]\<rparr>, [(''l__log_scale'', sp), (''l__log_rate'', rp)])"
  by (simp add: BaseAdditiveOrMultiplicativeEffect_apply_def BaseEffect_apply_def LogEffect_apply_hook_def
    LogEffect_init_def sample_def scalar_mul_def scalar_add_def jnp_log_def jnp_clip_min_def tmap_def
    Let_def max_exp)

text \<open>
  Claim C5. For every data array, the raw value of the Log effect has, at each entry \<open>x\<close>
  of the data, the entry \<open>scale * log (max (rate * x + 1) 1e-8)\<close>, where \<open>scale\<close> and
  \<open>rate\<close> are the draws of the sites \<open>log_scale\<close> and \<open>log_rate\<close>; the lower bound is
  applied to every entry. In additive mode with \<open>scale = 2\<close>, \<open>rate = 1\<close> and the data
  \<open>[0, e - 1]\<close> the effect is \<open>[0, 2]\<close>.
\<close>

theorem log_effect_value:
  "(kwargs ''data'' = Some data \<longrightarrow>
      LogEffect_apply_hook self trend kwargs env tr =
         Inr (tmap (\<lambda>x. env (effect_id self @ ''__log_scale'') *
                      ln (max (env (effect_id self @ ''__log_rate'') * x + 1) (1 / 10 ^ 8))) data,
              tr @ [(effect_id self @ ''__log_scale'', scale_prior self),
                    (effect_id self @ ''__log_rate'', rate_prior self)])) \<and>
   BaseAdditiveOrMultiplicativeEffect_apply LogEffect_apply_hook
     (LogEffect_init ''l'' None ''additive'' sp rp)
     trend' [''data'' \<mapsto> \<lparr>shape = [2], entries = [0, exp 1 - 1]\<rparr>]
     (\<lambda>s. if s = ''l__log_scale'' then 2 else 1) []
    = Inr (\<lparr>shape = [2], entries = [0, 2]\<rparr>, [(''l__log_scale'', sp), (''l__log_rate'', rp)])"
  using log_value_general [of kwargs data self trend env tr] log_scenario [of sp rp trend']
  by blast

text \<open>An entry with \<open>rate * x \<le> -1\<close>: the logarithm is taken of the lower bound.\<close>

theorem log_effect_value_witness:
  "[''data'' \<mapsto> \<lparr>shape = [1], entries = [- 5]\<rparr>] ''data'' = Some \<lparr>shape = [1], entries = [- 5]\<rparr> \<and>
   LogEffect_apply_hook (LogEffect_init ''l'' None ''additive'' () ())
     \<lparr>shape = [1], entries = [1]\<rparr> [''data'' \<mapsto> \<lparr>shape = [1], entries = [- 5]\<rparr>] (\<lambda>s. 1) []
    = Inr (\<lparr>shape = [1], entries = [ln (1 / 10 ^ 8)]\<rparr>, [(''l__log_scale'', ()), (''l__log_rate'', ())])"
  using log_effect_value [THEN conjunct1, rule_format,
      of "[''data'' \<mapsto> \<lparr>shape = [1], entries = [- 5]\<rparr>]" "\<lparr>shape = [1], entries = [- 5]\<rparr>"
         "LogEffect_init ''l'' None ''additive'' () ()" "\<lparr>shape = [1], entries = [1]\<rparr>" "\<lambda>s. 1" "[]"]
  by (simp add: tmap_def LogEffect_init_def)

section \<open>Dimension check of the application functions\<close>

text \<open>
  What the guard of \<open>additive_effect\<close> and \<open>multiplicative_effect\<close> compares: the extent
  of the second axis of the data with the leading extent of the coefficients. For data
  with two axes the second axis is the trailing one.
\<close>

lemma dimension_check_second_axis:
  assumes "1 < length (shape data)" and "shape coefficients \<noteq> []"
  shows "(shape data ! 1 \<noteq> hd (shape coefficients) \<longrightarrow>
            additive_effect mm data coefficients = Inl DimensionMismatch \<and>
            multiplicative_effect mm trend data coefficients = Inl DimensionMismatch) \<and>
         (shape data ! 1 = hd (shape coefficients) \<longrightarrow>
            additive_effect mm data coefficients = mm data coefficients \<and>
            multiplicative_effect mm trend data coefficients =
              (case mm data coefficients of Inl e \<Rightarrow> Inl e | Inr x \<Rightarrow> tmul trend x)) \<and>
         (length (shape data) = 2 \<longrightarrow> shape data ! 1 = last (shape data))"
proof -
  from assms(2) have c0: "shape coefficients ! 0 = hd (shape coefficients)"
    by (cases "shape coefficients") simp_all
  have l2: "length (shape data) = 2 \<Longrightarrow> shape data ! 1 = last (shape data)"
    by (cases "shape data") (auto simp: last_conv_nth)
  show ?thesis
    using assms c0 l2
    by (simp add: additive_effect_def multiplicative_effect_def shape_at_def)
qed

text \<open>
  Claim C4. Data of one series, two time steps and three features, shape \<open>(1, 2, 3)\<close>,
  with the coefficient vector of length 3: the trailing extent of the data equals the
  leading extent of the coefficients and the product is defined, yet both functions raise
  the dimension-mismatch error, also for the coefficients of shape \<open>(1, 3, 1)\<close> that the
  linear effect passes for such data. With data of shape \<open>(1, 3, 2)\<close> the trailing extent
  differs from the length of the coefficients, the guard raises nothing, and it is the
  multiplication that fails.
\<close>

theorem dimension_check_three_axes:
  "last (shape \<lparr>shape = [1, 2, 3], entries = [1, 2, 3, 4, 5, 6]\<rparr>) = hd (shape \<lparr>shape = [3], entries = [1, 1, 1]\<rparr>) \<and>
   matrix_multiplication \<lparr>shape = [1, 2, 3], entries = [1, 2, 3, 4, 5, 6]\<rparr>
      \<lparr>shape = [3], entries = [1, 1, 1]\<rparr> = Inr \<lparr>shape = [1, 2, 1], entries = [6, 15]\<rparr> \<and>
   additive_effect matrix_multiplication \<lparr>shape = [1, 2, 3], entries = [1, 2, 3, 4, 5, 6]\<rparr>
      \<lparr>shape = [3], entries = [1, 1, 1]\<rparr> = Inl DimensionMismatch \<and>
   multiplicative_effect matrix_multiplication \<lparr>shape = [1, 2, 1], entries = [1, 1]\<rparr>
      \<lparr>shape = [1, 2, 3], entries = [1, 2, 3, 4, 5, 6]\<rparr>
      \<lparr>shape = [3], entries = [1, 1, 1]\<rparr> = Inl DimensionMismatch \<and>
   additive_effect matrix_multiplication \<lparr>shape = [1, 2, 3], entries = [1, 2, 3, 4, 5, 6]\<rparr>
      \<lparr>shape = [1, 3, 1], entries = [1, 1, 1]\<rparr> = Inl DimensionMismatch \<and>
   last (shape \<lparr>shape = [1, 3, 2], entries = [1, 2, 3, 4, 5, 6]\<rparr>) \<noteq> hd (shape \<lparr>shape = [3], entries = [1, 1, 1]\<rparr>) \<and>
   additive_effect matrix_multiplication \<lparr>shape = [1, 3, 2], entries = [1, 2, 3, 4, 5, 6]\<rparr>
      \<lparr>shape = [3], entries = [1, 1, 1]\<rparr> = Inl ShapeError"
  by (simp add: additive_effect_def multiplicative_effect_def shape_at_def matrix_multiplication_def
      matmul_column_def reshape_column_def dot_def upt_rec)

section \<open>Hill effect\<close>

lemma hill_general:
  "HillEffect_compute_effect exponent_safe self trend data env tr =
     (let half_max = env (effect_id self @ ''__half_max'');
          slope = env (effect_id self @ ''__slope'');
          max_effect = env (effect_id self @ ''__max_effect'');
          raw = tmap (\<lambda>x. max_effect / (1 + exponent_safe (x / half_max) (- slope))) data;
          tr' = tr @ [(effect_id self @ ''__half_max'', half_max_prior self),
                      (effect_id self @ ''__slope'', slope_prior self),
                      (effect_id self @ ''__max_effect'', max_effect_prior self)]
      in if hill_effect_mode self = ''additive'' then Inr (raw, tr')
         else (case tmul trend raw of Inl e \<Rightarrow> Inl e | Inr y \<Rightarrow> Inr (y, tr')))"
  by (simp add: HillEffect_compute_effect_def sample_def scalar_div_def scalar_over_def scalar_add_def
      tmap_def Let_def comp_def add.commute split: sum.splits)

lemma hill_scenario:
  assumes "\<forall>b e. 0 < b \<longrightarrow> exponent_safe b e = b powr e"
  shows "HillEffect_compute_effect exponent_safe
      \<lparr>effect_id = ''h'', regex = None, half_max_prior = p1, slope_prior = p2,
       max_effect_prior = p3, hill_effect_mode = ''multiplicative''\<rparr>
      \<lparr>shape = [2], entries = [1, 1]\<rparr> \<lparr>shape = [2], entries = [1, 3]\<rparr>
      (\<lambda>s. if s = ''h__max_effect'' then 10 else 1) [] =
    Inr (\<lparr>shape = [2], entries = [5, 15 / 2]\<rparr>,
         [(''h__half_max'', p1), (''h__slope'', p2), (''h__max_effect'', p3)])"
proof -
  have e1: "exponent_safe 1 (- 1) = 1" using assms by simp
  have e3: "exponent_safe 3 (- 1) = 1 / 3" using assms by (simp add: powr_minus field_simps)
  show ?thesis
    by (simp add: hill_general Let_def tmap_def tmul_def broadcast_shapes_def entry_at_def upt_rec e1 e3)
qed

lemma exponent_safe_positive: "0 < b \<Longrightarrow> exponent_safe_spec fallback b e = b powr e"
  by (simp add: exponent_safe_spec_def jnp_power_def)

text \<open>
  Claim C6. For every data array, the raw value of the Hill effect has, at each entry \<open>x\<close>
  of the data, the entry \<open>max_effect / (1 + p)\<close>, where \<open>p\<close> is the safe exponentiation
  of \<open>x / half_max\<close> by \<open>- slope\<close>: the power \<open>(x / half_max) ** - slope\<close> wherever that
  power is a number, which includes every positive base, and a number as well where the
  power is a division by zero or the fractional power of a negative base, which happens
  for zero or negative data only. The raw value is returned in additive mode and
  multiplied by the trend otherwise. In multiplicative mode with \<open>half_max = 1\<close>,
  \<open>slope = 1\<close>, \<open>max_effect = 10\<close>, trend \<open>[1, 1]\<close> and data \<open>[1, 3]\<close> the effect is
  \<open>[5, 7.5]\<close>.
\<close>

theorem hill_effect_value:
  "HillEffect_compute_effect (exponent_safe_spec fallback) self trend data env tr =
     (let half_max = env (effect_id self @ ''__half_max'');
          slope = env (effect_id self @ ''__slope'');
          max_effect = env (effect_id self @ ''__max_effect'');
          raw = tmap (\<lambda>x. max_effect / (1 + exponent_safe_spec fallback (x / half_max) (- slope))) data;
          tr' = tr @ [(effect_id self @ ''__half_max'', half_max_prior self),
                      (effect_id self @ ''__slope'', slope_prior self),
                      (effect_id self @ ''__max_effect'', max_effect_prior self)]
      in if hill_effect_mode self = ''additive'' then Inr (raw, tr')
         else (case tmul trend raw of Inl e \<Rightarrow> Inl e | Inr y \<Rightarrow> Inr (y, tr'))) \<and>
   (jnp_power b e = Some v \<longrightarrow> exponent_safe_spec fallback b e = v) \<and>
   (jnp_power b e = None \<longrightarrow> b \<le> 0 \<and> exponent_safe_spec fallback b e = fallback b e) \<and>
   (0 < b \<longrightarrow> jnp_power b e = Some (b powr e)) \<and>
   HillEffect_compute_effect (exponent_safe_spec fallback)
      \<lparr>effect_id = ''h'', regex = None, half_max_prior = p1, slope_prior = p2,
       max_effect_prior = p3, hill_effect_mode = ''multiplicative''\<rparr>
      \<lparr>shape = [2], entries = [1, 1]\<rparr> \<lparr>shape = [2], entries = [1, 3]\<rparr>
      (\<lambda>s. if s = ''h__max_effect'' then 10 else 1) [] =
    Inr (\<lparr>shape = [2], entries = [5, 15 / 2]\<rparr>,
         [(''h__half_max'', p1), (''h__slope'', p2), (''h__max_effect'', p3)])"
proof -
  have pos: "\<forall>b e. 0 < b \<longrightarrow> exponent_safe_spec fallback b e = b powr e"
    by (simp add: exponent_safe_positive)
  have c2: "jnp_power b e = Some v \<longrightarrow> exponent_safe_spec fallback b e = v"
    by (simp add: exponent_safe_spec_def)
  have c3: "jnp_power b e = None \<longrightarrow> b \<le> 0 \<and> exponent_safe_spec fallback b e = fallback b e"
    by (auto simp: exponent_safe_spec_def jnp_power_def split: if_splits)
  have c4: "0 < b \<longrightarrow> jnp_power b e = Some (b powr e)"
    by (simp add: jnp_power_def)
  show ?thesis
    using hill_general [of "exponent_safe_spec fallback" self trend data env tr]
      hill_scenario [OF pos, of p1 p2 p3] c2 c3 c4
    by blast
qed

theorem hill_effect_value_witness:
  "jnp_power 3 (- 1) = Some (1 / 3) \<and> exponent_safe_spec (\<lambda>b e. 0) 3 (- 1) = 1 / 3 \<and>
   jnp_power 0 (- 1) = None \<and> exponent_safe_spec (\<lambda>b e. 0) 0 (- 1) = 0 \<and>
   jnp_power (- 2) (- 1) = Some (- 1 / 2) \<and> exponent_safe_spec (\<lambda>b e. 0) (- 2) (- 1) = - 1 / 2 \<and>
   jnp_power (- 2) (- 1 / 2) = None \<and> exponent_safe_spec (\<lambda>b e. 0) (- 2) (- 1 / 2) = 0 \<and>
   HillEffect_compute_effect (exponent_safe_spec (\<lambda>b e. 0))
      \<lparr>effect_id = ''h'', regex = None, half_max_prior = (), slope_prior = (),
       max_effect_prior = (), hill_effect_mode = ''additive''\<rparr>
      \<lparr>shape = [2], entries = [1, 1]\<rparr> \<lparr>shape = [3], entries = [0, 1, 3]\<rparr>
      (\<lambda>s. if s = ''h__max_effect'' then 10 else 1) [] =
    Inr (\<lparr>shape = [3], entries = [10, 5, 15 / 2]\<rparr>,
         [(''h__half_max'', ()), (''h__slope'', ()), (''h__max_effect'', ())])"
proof -
  have p3: "jnp_power 3 (- 1) = Some (1 / 3)"
    by (simp add: jnp_power_def powr_minus field_simps)
  have p0: "jnp_power 0 (- 1) = None" by (simp add: jnp_power_def)
  have fl: "\<lfloor>- 1 :: real\<rfloor> = - 1"
    using floor_of_int [of "- 1", where ?'a = real] by simp
  have pm: "jnp_power (- 2) (- 1) = Some (- 1 / 2)"
    by (simp add: jnp_power_def fl power_int_minus)
  have pf: "jnp_power (- 2) (- 1 / 2) = None"
    by (simp add: jnp_power_def)
  have p1: "jnp_power 1 (- 1) = Some 1" by (simp add: jnp_power_def)
  note t = hill_effect_value [where fallback = "\<lambda>b e. 0"]
  have e3: "exponent_safe_spec (\<lambda>b e. 0) 3 (- 1) = 1 / 3"
    using t [THEN conjunct2, THEN conjunct1, of 3 "- 1" "1 / 3"] p3 by simp
  have e0: "exponent_safe_spec (\<lambda>b e. 0) 0 (- 1) = 0"
    using t [THEN conjunct2, THEN conjunct2, THEN conjunct1, of 0 "- 1"] p0 by simp
  have em: "exponent_safe_spec (\<lambda>b e. 0) (- 2) (- 1) = - 1 / 2"
    using t [THEN conjunct2, THEN conjunct1, of "- 2" "- 1" "- 1 / 2"] pm by simp
  have ef: "exponent_safe_spec (\<lambda>b e. 0) (- 2) (- 1 / 2) = 0"
    using t [THEN conjunct2, THEN conjunct2, THEN conjunct1, of "- 2" "- 1 / 2"] pf by simp
  have e1: "exponent_safe_spec (\<lambda>b e. 0) 1 (- 1) = 1"
    using t [THEN conjunct2, THEN conjunct1, of 1 "- 1" 1] p1 by simp
  have "HillEffect_compute_effect (exponent_safe_spec (\<lambda>b e. 0))
      \<lparr>effect_id = ''h'', regex = None, half_max_prior = (), slope_prior = (),
       max_effect_prior = (), hill_effect_mode = ''additive''\<rparr>
      \<lparr>shape = [2], entries = [1, 1]\<rparr> \<lparr>shape = [3], entries = [0, 1, 3]\<rparr>
      (\<lambda>s. if s = ''h__max_effect'' then 10 else 1) [] =
    Inr (\<lparr>shape = [3], entries = [10, 5, 15 / 2]\<rparr>,
         [(''h__half_max'', ()), (''h__slope'', ()), (''h__max_effect'', ())])"
    using t [THEN conjunct1, of "\<lparr>effect_id = ''h'', regex = None, half_max_prior = (), slope_prior = (),
       max_effect_prior = (), hill_effect_mode = ''additive''\<rparr>" "\<lparr>shape = [2], entries = [1, 1]\<rparr>"
       "\<lparr>shape = [3], entries = [0, 1, 3]\<rparr>" "\<lambda>s. if s = ''h__max_effect'' then 10 else 1" "[]"]
    by (simp add: Let_def tmap_def e0 e1 e3)
  with p3 p0 pm pf e3 e0 em ef show ?thesis by simp
qed

section \<open>Placement matrix\<close>

lemma eye_nth: "k < n \<Longrightarrow> i < n \<Longrightarrow> eye n ! k ! i = (if k = i then 1 else 0)"
  by (simp add: eye_def)

lemma length_block: "length (block n idx) = n"
  by (simp add: block_def transpose_matrix_def)

lemma block_row:
  assumes "i < n" and "\<forall>k\<in>set idx. k < n"
  shows "block n idx ! i = map (\<lambda>k. if k = i then 1 else 0) idx"
  using assms by (simp add: block_def transpose_matrix_def take_rows_def eye_nth)

lemma group_loop_mats:
  "fst (group_loop re_match names i ps) = map (block (length names)) (group_indices re_match names ps)"
  by (induction ps arbitrary: i)
     (auto simp: group_indices_def block_def Let_def case_prod_beta)

lemma group_loop_dists:
  "map (snd \<circ> snd) (fst (snd (group_loop re_match names i ps))) = map length (group_indices re_match names ps)"
  by (induction ps arbitrary: i)
     (auto simp: group_indices_def Let_def case_prod_beta)

lemma get_loc_less: "c \<in> set names \<Longrightarrow> get_loc names c < length names"
  unfolding get_loc_def by (induction names) auto

lemma get_loc_nth: "c \<in> set names \<Longrightarrow> names ! get_loc names c = c"
  unfolding get_loc_def by (induction names) auto

lemma get_loc_inj: "inj_on (get_loc names) (set names)"
  by (rule inj_onI) (metis get_loc_nth)

lemma get_loc_of_nth: "distinct names \<Longrightarrow> i < length names \<Longrightarrow> get_loc names (names ! i) = i"
  by (metis get_loc_less get_loc_nth nth_eq_iff_index_eq nth_mem)

lemma group_indices_bound:
  "idx \<in> set (group_indices re_match names ps) \<Longrightarrow> k \<in> set idx \<Longrightarrow> k < length names"
  by (auto simp: group_indices_def get_loc_less)

lemma group_indices_distinct:
  "distinct names \<Longrightarrow> idx \<in> set (group_indices re_match names ps) \<Longrightarrow> distinct idx"
  by (auto simp: group_indices_def distinct_map intro: inj_on_subset [OF get_loc_inj])

lemma concat_block_rows:
  assumes "i < n" and "\<forall>idx\<in>set idxs. \<forall>k\<in>set idx. k < n"
  shows "concat (map (\<lambda>M'. M' ! i) (map (block n) idxs)) = map (\<lambda>k. if k = i then 1 else 0) (concat idxs)"
  using assms(2)
proof (induction idxs)
  case Nil
  then show ?case by simp
next
  case (Cons a idxs)
  then show ?case using assms(1) by (simp add: block_row)
qed

lemma concatenate_blocks:
  assumes "idxs \<noteq> []" and "\<forall>idx\<in>set idxs. \<forall>k\<in>set idx. k < n"
  shows "concatenate_axis1 (map (block n) idxs) =
         Inr (map (\<lambda>i. map (\<lambda>k. if k = i then 1 else 0) (concat idxs)) [0..<n])"
proof -
  obtain a as where idxs: "idxs = a # as" using assms(1) by (cases idxs) auto
  have "concatenate_axis1 (map (block n) idxs) =
        Inr (map (\<lambda>i. concat (map (\<lambda>M'. M' ! i) (map (block n) idxs))) [0..<n])"
    by (simp add: concatenate_axis1_def idxs length_block list_all_iff)
  also have "map (\<lambda>i. concat (map (\<lambda>M'. M' ! i) (map (block n) idxs))) [0..<n] =
             map (\<lambda>i. map (\<lambda>k. if k = i then 1 else 0) (concat idxs)) [0..<n]"
    using assms(2) by (intro map_cong refl concat_block_rows) simp_all
  finally show ?thesis .
qed

text \<open>dot of an indicator row\<close>

lemma dot_indicator:
  "length ks = length c \<Longrightarrow>
   dot (map (\<lambda>k. if k = i then 1 else 0) ks) c = sum_list (map (\<lambda>(k, x). if k = i then x else 0) (zip ks c))"
  unfolding dot_def
  by (induction ks c rule: list_induct2) auto

lemma sum_map_of:
  "distinct (map fst ps) \<Longrightarrow>
   sum_list (map (\<lambda>(k, x). if k = i then x else 0) ps) = (case map_of ps i of Some x \<Rightarrow> x | None \<Rightarrow> (0::real))"
proof (induction ps)
  case Nil
  then show ?case by simp
next
  case (Cons p ps)
  obtain k x where p: "p = (k, x)" by (cases p)
  show ?case
  proof (cases "k = i")
    case True
    with Cons.prems p have "map_of ps i = None"
      by (auto simp: map_of_eq_None_iff)
    with Cons True p show ?thesis by simp
  next
    case False
    with Cons p show ?thesis by simp
  qed
qed

lemma place_nth:
  assumes "i < n" and "distinct idx" and "length idx = length v"
  shows "place n idx v ! i = sum_list (map (\<lambda>(k, x). if k = i then x else 0) (zip idx v))"
  using assms by (simp add: place_def sum_map_of)

lemma length_place: "length (place n idx v) = n"
  by (simp add: place_def)

lemma length_placed_sum: "list_all2 (\<lambda>idx v. True) idxs vs \<Longrightarrow> length (placed_sum n idxs vs) = n"
  unfolding placed_sum_def
  by (induction idxs vs rule: list_all2_induct) (simp_all add: vadd_def length_place)

lemma placed_sum_nth:
  assumes "i < n"
  shows "list_all2 (\<lambda>idx v. distinct idx \<and> length idx = length v) idxs vs \<Longrightarrow>
         placed_sum n idxs vs ! i =
           sum_list (map (\<lambda>(k, x). if k = i then x else 0) (zip (concat idxs) (concat vs)))"
proof (induction idxs vs rule: list_all2_induct)
  case Nil
  then show ?case using assms by (simp add: placed_sum_def)
next
  case (Cons idx idxs v vs)
  have len: "length (foldr vadd (map2 (place n) idxs vs) (replicate n 0)) = n"
    using length_placed_sum [of idxs vs n] Cons.hyps(2)
    by (simp add: placed_sum_def list_all2_conv_all_nth)
  have "placed_sum n (idx # idxs) (v # vs) ! i = place n idx v ! i + placed_sum n idxs vs ! i"
    using assms len by (simp add: placed_sum_def vadd_def length_place)
  then show ?case
    using Cons assms by (simp add: place_nth)
qed


lemma sample_parameters_eq:
  "sample_parameters self dists env tr = (draws self env dists, tr @ declared self dists)"
  by (induction dists arbitrary: tr)
     (auto simp: draws_def declared_def sample_def Let_def)

lemma length_concat_all2:
  "list_all2 (\<lambda>idx v. length idx = length v) idxs vs \<Longrightarrow> length (concat idxs) = length (concat vs)"
  by (induction idxs vs rule: list_all2_induct) simp_all

lemma matvec_placement:
  assumes shp: "list_all2 (\<lambda>idx v. length idx = length (v::real list)) idxs vs"
    and dst: "\<forall>idx\<in>set idxs. distinct idx"
  shows "matvec (map (\<lambda>i. map (\<lambda>k. if k = i then 1 else 0) (concat idxs)) [0..<n]) (concat vs) =
         Inr (placed_sum n idxs vs)"
proof -
  have len: "length (concat idxs) = length (concat vs)"
    using shp by (rule length_concat_all2)
  have all2: "list_all2 (\<lambda>idx v. distinct idx \<and> length idx = length v) idxs vs"
    using shp dst by (auto simp: list_all2_conv_all_nth)
  have lps: "length (placed_sum n idxs vs) = n"
    using shp by (intro length_placed_sum) (simp add: list_all2_conv_all_nth)
  have "map (\<lambda>row. dot row (concat vs)) (map (\<lambda>i. map (\<lambda>k. if k = i then 1 else 0) (concat idxs)) [0..<n])
        = placed_sum n idxs vs"
    by (rule nth_equalityI) (simp_all add: lps dot_indicator [OF len] placed_sum_nth [OF _ all2])
  then show ?thesis
    using len by (simp add: matvec_def list_all_iff)
qed

lemma count_group:
  assumes "distinct names" and "i < length names"
  shows "length (filter (\<lambda>k. k = i) (map (get_loc names) (filter Q names))) = (if Q (names ! i) then 1 else 0)"
proof -
  have "filter (\<lambda>k. k = i) (map (get_loc names) (filter Q names)) =
        map (get_loc names) (filter (\<lambda>x. Q x \<and> get_loc names x = i) names)"
    by (simp add: filter_map comp_def conj_commute)
  also have "filter (\<lambda>x. Q x \<and> get_loc names x = i) names = filter (\<lambda>x. Q x \<and> x = names ! i) names"
    using assms by (intro filter_cong refl) (auto simp: get_loc_of_nth get_loc_nth)
  also have "\<dots> = (if Q (names ! i) then filter (\<lambda>x. x = names ! i) names else [])"
    by (cases "Q (names ! i)") (auto intro: filter_cong simp: filter_empty_conv)
  finally have "length (filter (\<lambda>k. k = i) (map (get_loc names) (filter Q names))) =
        (if Q (names ! i) then length (filter (\<lambda>x. x = names ! i) names) else 0)"
    by simp
  moreover have "length (filter (\<lambda>x. x = names ! i) names) = 1"
  proof -
    have "{x. x = names ! i} \<inter> set names = {names ! i}" using assms(2) by auto
    then show ?thesis using assms(1) by (simp add: distinct_length_filter)
  qed
  ultimately show ?thesis by simp
qed

lemma concat_group_indices:
  "concat (group_indices re_match names ps) =
   concat (map (\<lambda>(r, prior). map (get_loc names) (filter (re_match r) names)) ps)"
  unfolding group_indices_def by (induction ps) auto

lemma count_concat_groups:
  assumes "distinct names" and "i < length names"
  shows "length (filter (\<lambda>k. k = i) (concat (group_indices re_match names ps))) =
         length (filter (\<lambda>(r, p). re_match r (names ! i)) ps)"
  unfolding concat_group_indices
proof (induction ps)
  case Nil
  then show ?case by simp
next
  case (Cons p ps)
  obtain r q where p: "p = (r, q)" by (cases p)
  have "length (filter (\<lambda>k. k = i) (map (get_loc names) (filter (re_match r) names))) =
        (if re_match r (names ! i) then 1 else 0)"
    by (rule count_group [OF assms])
  then show ?case using Cons.IH p by simp
qed

lemma ones_in_indicator:
  "filter (\<lambda>x. x = (1::real)) (map (\<lambda>k. if k = i then 1 else 0) ks) =
   map (\<lambda>k. 1) (filter (\<lambda>k. k = i) ks)"
  by (induction ks) auto


text \<open>
  Claim C2. Let the feature names be distinct and let the patterns of the prior dictionary
  (with the entry of the default prior) partition them: every feature name is matched by
  exactly one pattern. Then the matrix is set, it has one row per feature, every row holds
  exactly one 1 and zeros elsewhere, and for draws of the groups' sizes the product of the
  matrix with the concatenated draws is the sum over the groups of the vectors that hold
  the group's draw at the group's column positions and zero elsewhere.
\<close>

theorem placement_matrix_scatter_gather:
  assumes dist: "distinct (feature_names self)"
    and ne: "feature_names self \<noteq> []"
    and pri: "priors_with_default re_match self = Inr priors"
    and part: "\<forall>c\<in>set (feature_names self). length (filter (\<lambda>(r, p). re_match r c) priors) = 1"
  shows "\<exists>self' warnings P dists.
      set_distributions_and_permutation_matrix re_match self = Inr (self', warnings) \<and>
      exogenous_permutation_matrix self' = Some P \<and> exogenous_dists self' = Some dists \<and>
      length P = length (feature_names self) \<and>
      (\<forall>row\<in>set P. length (filter (\<lambda>x. x = 1) row) = 1 \<and> set row \<subseteq> {0, 1}) \<and>
      (\<forall>env tr.
         list_all2 (\<lambda>idx v. length idx = length v)
           (group_indices re_match (feature_names self) priors) (draws self' env dists) \<longrightarrow>
         get_coefficients self' env tr =
           Inr (placed_sum (length (feature_names self))
                  (group_indices re_match (feature_names self) priors) (draws self' env dists),
                tr @ declared self' dists))"
proof -
  define names where "names = feature_names self"
  define n where "n = length names"
  define idxs where "idxs = group_indices re_match names priors"
  obtain mats dists warnings where gl: "group_loop re_match names 0 priors = (mats, dists, warnings)"
    by (cases "group_loop re_match names 0 priors") auto
  have mats: "mats = map (block n) idxs"
    using group_loop_mats [of re_match names 0 priors] gl by (simp add: idxs_def n_def)
  have count: "length (filter (\<lambda>k. k = i) (concat idxs)) = 1" if "i < n" for i
  proof -
    have "names ! i \<in> set names" using that by (simp add: n_def)
    with part have "length (filter (\<lambda>(r, p). re_match r (names ! i)) priors) = 1"
      by (simp add: names_def)
    then show ?thesis
      using count_concat_groups [of names i re_match priors] dist that
      by (simp add: idxs_def names_def n_def)
  qed
  have "0 < n" using ne by (simp add: n_def names_def)
  from count [OF this] have idxs_ne: "idxs \<noteq> []" by auto
  have bound: "\<forall>idx\<in>set idxs. \<forall>k\<in>set idx. k < n"
    using group_indices_bound [of _ re_match names priors] by (auto simp: idxs_def n_def)
  have dst: "\<forall>idx\<in>set idxs. distinct idx"
    using group_indices_distinct [of names _ re_match priors] dist by (auto simp: idxs_def names_def)
  define P where "P = map (\<lambda>i. map (\<lambda>k. if k = i then (1::real) else 0) (concat idxs)) [0..<n]"
  have cc: "concatenate_axis1 mats = Inr P"
    unfolding mats P_def by (rule concatenate_blocks [OF idxs_ne bound])
  define self' where
    "self' = self\<lparr>exogenous_permutation_matrix := Some P, exogenous_dists := Some dists\<rparr>"
  have init: "set_distributions_and_permutation_matrix re_match self = Inr (self', warnings)"
    using ne pri gl cc
    by (simp add: set_distributions_and_permutation_matrix_def names_def self'_def)
  have rows: "\<forall>row\<in>set P. length (filter (\<lambda>x. x = 1) row) = 1 \<and> set row \<subseteq> {0, 1}"
  proof
    fix row assume "row \<in> set P"
    then obtain i where i: "i < n" and row: "row = map (\<lambda>k. if k = i then 1 else 0) (concat idxs)"
      by (auto simp: P_def)
    have "length (filter (\<lambda>x. x = 1) row) = 1"
      unfolding row ones_in_indicator using count [OF i] by simp
    moreover have "set row \<subseteq> {0, 1}" unfolding row by auto
    ultimately show "length (filter (\<lambda>x. x = 1) row) = 1 \<and> set row \<subseteq> {0, 1}" ..
  qed
  have coef: "get_coefficients self' env tr = Inr (placed_sum n idxs (draws self' env dists), tr @ declared self' dists)"
    if shp: "list_all2 (\<lambda>idx v. length idx = length v) idxs (draws self' env dists)" for env tr
  proof -
    from shp idxs_ne have dne: "draws self' env dists \<noteq> []" by auto
    show ?thesis
      using dne matvec_placement [OF shp dst, of n]
      by (simp add: get_coefficients_def self'_def sample_parameters_eq P_def)
  qed
  have "length P = length (feature_names self)" by (simp add: P_def n_def names_def)
  with init rows coef show ?thesis
    unfolding idxs_def n_def names_def
    by (intro exI [of _ self'] exI [of _ warnings] exI [of _ P] exI [of _ dists])
       (simp add: self'_def)
qed

theorem placement_matrix_scatter_gather_witness:
  "distinct (feature_names example_effect) \<and> feature_names example_effect \<noteq> [] \<and>
   priors_with_default literal_match example_effect = Inr [(''b'', ()), (''a|c'', ())] \<and>
   map (\<lambda>c. length (filter (\<lambda>(r, p). literal_match r c) [(''b'', ()), (''a|c'', ())]))
     (feature_names example_effect) = [1, 1, 1] \<and>
   (\<exists>self' warnings dists.
      set_distributions_and_permutation_matrix literal_match example_effect = Inr (self', warnings) \<and>
      exogenous_permutation_matrix self' = Some [[0, 1, 0], [1, 0, 0], [0, 0, 1]] \<and>
      exogenous_dists self' = Some dists \<and>
      get_coefficients self'
        (\<lambda>s. if s = ''h__exogenous_coefficients_exogenous_coefficients_0'' then [5] else [7, 9]) [] =
        Inr ([7, 5, 9], declared self' dists))"
proof -
  have h1: "distinct (feature_names example_effect)" by code_simp
  have h2: "feature_names example_effect \<noteq> []" by code_simp
  have h3: "priors_with_default literal_match example_effect = Inr [(''b'', ()), (''a|c'', ())]"
    by code_simp
  have h4: "\<forall>c\<in>set (feature_names example_effect).
       length (filter (\<lambda>(r, p). literal_match r c) [(''b'', ()), (''a|c'', ())]) = 1"
    by code_simp
  have gi: "group_indices literal_match (feature_names example_effect) [(''b'', ()), (''a|c'', ())] = [[1], [0, 2]]"
    by code_simp
  have ev: "set_distributions_and_permutation_matrix literal_match example_effect =
      Inr (example_effect\<lparr>exogenous_permutation_matrix := Some [[0, 1, 0], [1, 0, 0], [0, 0, 1]],
             exogenous_dists := Some [(''exogenous_coefficients_0'', (), 1), (''exogenous_coefficients_1'', (), 2)]\<rparr>, [])"
    by code_simp
  have n: "length (feature_names example_effect) = 3" by code_simp
  have ps: "placed_sum 3 [[1], [0, 2]] [[5], [7, 9]] = [7, 5, 9]" by code_simp
  have i: "effect_id example_effect = ''h''" by code_simp
  from placement_matrix_scatter_gather [OF h1 h2 h3 h4]
  obtain self' warnings P dists where
    r: "set_distributions_and_permutation_matrix literal_match example_effect = Inr (self', warnings)"
    and p: "exogenous_permutation_matrix self' = Some P" and d: "exogenous_dists self' = Some dists"
    and c: "\<And>env tr. list_all2 (\<lambda>idx v. length idx = length v)
           (group_indices literal_match (feature_names example_effect) [(''b'', ()), (''a|c'', ())])
           (draws self' env dists) \<Longrightarrow>
         get_coefficients self' env tr =
           Inr (placed_sum (length (feature_names example_effect))
                  (group_indices literal_match (feature_names example_effect) [(''b'', ()), (''a|c'', ())])
                  (draws self' env dists),
                tr @ declared self' dists)"
    by blast
  from r ev have s: "self' = example_effect\<lparr>exogenous_permutation_matrix := Some [[0, 1, 0], [1, 0, 0], [0, 0, 1]],
             exogenous_dists := Some [(''exogenous_coefficients_0'', (), 1), (''exogenous_coefficients_1'', (), 2)]\<rparr>"
    by simp
  have dd: "dists = [(''exogenous_coefficients_0'', (), 1), (''exogenous_coefficients_1'', (), 2)]"
    using d by (simp add: s)
  have dr: "draws self' (\<lambda>s. if s = ''h__exogenous_coefficients_exogenous_coefficients_0'' then [5] else [7, 9]) dists
      = [[5], [7, 9]]"
    by (simp add: dd s draws_def i)
  have "get_coefficients self'
        (\<lambda>s. if s = ''h__exogenous_coefficients_exogenous_coefficients_0'' then [5] else [7, 9]) [] =
        Inr ([7, 5, 9], declared self' dists)"
    using c [of "\<lambda>s. if s = ''h__exogenous_coefficients_exogenous_coefficients_0'' then [5] else [7, 9]" "[]"] ps
    by (simp add: dr gi n)
  moreover have "map (\<lambda>c. length (filter (\<lambda>(r, p). literal_match r c) [(''b'', ()), (''a|c'', ())]))
     (feature_names example_effect) = [1, 1, 1]"
    by code_simp
  ultimately show ?thesis using h1 h2 h3 r p d s by auto
qed

section \<open>Prior groups\<close>

text \<open>
  Two patterns of the prior dictionary that match a common feature name: the error is
  raised, and every column it names is matched by two patterns.
\<close>

lemma claim_columns_error:
  "claim_columns re_match names rs A = Inl e \<Longrightarrow>
   \<exists>S. e = ColumnsAlreadySet S \<and> S \<noteq> {} \<and>
       (\<forall>c\<in>S. c \<in> set names \<and>
          (\<exists>k<length rs. re_match (rs ! k) c \<and> (c \<in> A \<or> (\<exists>k'<k. re_match (rs ! k') c))))"
proof (induction rs arbitrary: A)
  case Nil
  then show ?case by simp
next
  case (Cons r rs)
  let ?cols = "set (filter (re_match r) names)"
  show ?case
  proof (cases "A \<inter> ?cols = {}")
    case False
    with Cons.prems have e: "e = ColumnsAlreadySet (A \<inter> ?cols)" by (simp add: Let_def)
    have "\<forall>c\<in>A \<inter> ?cols. c \<in> set names \<and>
          (\<exists>k<length (r # rs). re_match ((r # rs) ! k) c \<and> (c \<in> A \<or> (\<exists>k'<k. re_match ((r # rs) ! k') c)))"
      by (auto intro: exI [of _ 0])
    with e False show ?thesis by blast
  next
    case True
    with Cons.prems have "claim_columns re_match names rs (A \<union> ?cols) = Inl e" by (simp add: Let_def)
    from Cons.IH [OF this] obtain S where e: "e = ColumnsAlreadySet S" and ne: "S \<noteq> {}"
      and S: "\<forall>c\<in>S. c \<in> set names \<and>
          (\<exists>k<length rs. re_match (rs ! k) c \<and> (c \<in> A \<union> ?cols \<or> (\<exists>k'<k. re_match (rs ! k') c)))"
      by blast
    have "\<forall>c\<in>S. c \<in> set names \<and>
          (\<exists>k<length (r # rs). re_match ((r # rs) ! k) c \<and> (c \<in> A \<or> (\<exists>k'<k. re_match ((r # rs) ! k') c)))"
    proof
      fix c assume "c \<in> S"
      with S obtain k where cn: "c \<in> set names" and k: "k < length rs" "re_match (rs ! k) c"
        and alt: "c \<in> A \<union> ?cols \<or> (\<exists>k'<k. re_match (rs ! k') c)" by blast
      from alt have "c \<in> A \<or> (\<exists>k'<Suc k. re_match ((r # rs) ! k') c)"
      proof (elim disjE exE conjE)
        assume "c \<in> A \<union> ?cols"
        then show ?thesis by (auto intro: exI [of _ 0])
      next
        fix k' assume "k' < k" "re_match (rs ! k') c"
        then show ?thesis by (auto intro: exI [of _ "Suc k'"])
      qed
      moreover have "Suc k < length (r # rs)" "re_match ((r # rs) ! Suc k) c"
        using k by simp_all
      ultimately show "c \<in> set names \<and>
          (\<exists>k<length (r # rs). re_match ((r # rs) ! k) c \<and> (c \<in> A \<or> (\<exists>k'<k. re_match ((r # rs) ! k') c)))"
        using cn by blast
    qed
    with e ne show ?thesis by blast
  qed
qed

lemma claim_columns_overlap:
  assumes "k < length rs" and "c \<in> set names" and "re_match (rs ! k) c"
    and "c \<in> A \<or> (\<exists>k'<k. re_match (rs ! k') c)"
  shows "\<exists>e. claim_columns re_match names rs A = Inl e"
  using assms
proof (induction rs arbitrary: A k)
  case Nil
  then show ?case by simp
next
  case (Cons r rs)
  let ?cols = "set (filter (re_match r) names)"
  show ?case
  proof (cases "A \<inter> ?cols = {}")
    case False
    then show ?thesis by (simp add: Let_def)
  next
    case True
    have "k \<noteq> 0"
    proof
      assume "k = 0"
      with Cons.prems have "c \<in> A \<inter> ?cols" by auto
      with True show False by blast
    qed
    then obtain j where j: "k = Suc j" by (cases k) auto
    from Cons.prems(4) have "c \<in> A \<union> ?cols \<or> (\<exists>k'<j. re_match (rs ! k') c)"
    proof (elim disjE exE conjE)
      assume "c \<in> A" then show ?thesis by simp
    next
      fix k' assume k': "k' < k" "re_match ((r # rs) ! k') c"
      show ?thesis
      proof (cases k')
        case 0
        with k' Cons.prems(2) show ?thesis by simp
      next
        case (Suc i)
        with k' j show ?thesis by auto
      qed
    qed
    with Cons.IH [of j "A \<union> ?cols"] Cons.prems j
    have "\<exists>e. claim_columns re_match names rs (A \<union> ?cols) = Inl e" by simp
    with True show ?thesis by (simp add: Let_def)
  qed
qed

lemma overlap_raises:
  assumes "i < j" and "j < length (exogenous_priors self)" and "c \<in> set (feature_names self)"
    and "re_match (fst (exogenous_priors self ! i)) c" and "re_match (fst (exogenous_priors self ! j)) c"
  shows "\<exists>S. features_with_default_priors re_match self = Inl (ColumnsAlreadySet S) \<and> S \<noteq> {} \<and>
             (\<forall>c'\<in>S. c' \<in> set (feature_names self) \<and>
                (\<exists>i' j'. i' < j' \<and> j' < length (exogenous_priors self) \<and>
                   re_match (fst (exogenous_priors self ! i')) c' \<and>
                   re_match (fst (exogenous_priors self ! j')) c'))"
proof -
  let ?rs = "map fst (exogenous_priors self)"
  have "\<exists>e. claim_columns re_match (feature_names self) ?rs {} = Inl e"
    using assms by (intro claim_columns_overlap [of j _ c]) auto
  then obtain e where e: "claim_columns re_match (feature_names self) ?rs {} = Inl e" ..
  from claim_columns_error [OF e] obtain S where "e = ColumnsAlreadySet S" "S \<noteq> {}"
    and S: "\<forall>c\<in>S. c \<in> set (feature_names self) \<and>
          (\<exists>k<length ?rs. re_match (?rs ! k) c \<and> (c \<in> {} \<or> (\<exists>k'<k. re_match (?rs ! k') c)))"
    by blast
  moreover have "\<forall>c'\<in>S. c' \<in> set (feature_names self) \<and>
                (\<exists>i' j'. i' < j' \<and> j' < length (exogenous_priors self) \<and>
                   re_match (fst (exogenous_priors self ! i')) c' \<and>
                   re_match (fst (exogenous_priors self ! j')) c')"
  proof
    fix c' assume "c' \<in> S"
    with S obtain k k' where "c' \<in> set (feature_names self)" "k < length ?rs" "re_match (?rs ! k) c'"
      "k' < k" "re_match (?rs ! k') c'" by auto
    then have "c' \<in> set (feature_names self)" "k' < k" "k < length (exogenous_priors self)"
      "re_match (fst (exogenous_priors self ! k')) c'" "re_match (fst (exogenous_priors self ! k)) c'"
      by simp_all
    then show "c' \<in> set (feature_names self) \<and>
                (\<exists>i' j'. i' < j' \<and> j' < length (exogenous_priors self) \<and>
                   re_match (fst (exogenous_priors self ! i')) c' \<and>
                   re_match (fst (exogenous_priors self ! j')) c')"
      by blast
  qed
  ultimately show ?thesis using e by (auto simp: features_with_default_priors_def)
qed

text \<open>
  Claim C3. The feature names \<open>a\<close> and \<open>ab\<close> with the one pattern \<open>ab\<close>: no two
  patterns of the dictionary overlap and no error is raised. The pattern built for the
  remaining column is \<open>a\<close>, and it matches \<open>ab\<close> as well: \<open>ab\<close> is in the group of its
  own pattern and in the group of the default prior, and its row of the matrix holds two 1s.
\<close>

theorem default_group_claims_prefixed_column:
  "features_with_default_priors literal_match prefix_effect = Inr ''a'' \<and>
   priors_with_default literal_match prefix_effect = Inr [(''ab'', ()), (''a'', ())] \<and>
   filter (literal_match ''ab'') (feature_names prefix_effect) = [''ab''] \<and>
   filter (literal_match ''a'') (feature_names prefix_effect) = [''a'', ''ab''] \<and>
   set_distributions_and_permutation_matrix literal_match prefix_effect =
     Inr (prefix_effect\<lparr>exogenous_permutation_matrix := Some [[0, 1, 0], [1, 0, 1]],
            exogenous_dists := Some [(''exogenous_coefficients_0'', (), 1), (''exogenous_coefficients_1'', (), 2)]\<rparr>,
          [])"
  by code_simp

section \<open>Groups that match no column\<close>






lemma update_fresh: "k \<notin> fst ` set al \<Longrightarrow> AList.update k v al = al @ [(k, v)]"
  by (induction al) auto












end
